theory Spec2Isabelle
  imports Complex_Main "HOL-Library.AList" "HOL-Library.Sublist"
begin

section \<open>The multi-video player page (src/app/page.tsx)\<close>

text \<open>
  The page is one React function component, \<^verbatim>\<open>VideoPlayerPage\<close>. Its state is four
  \<^verbatim>\<open>useState\<close> cells (\<open>videos\<close>, \<open>globalVolume\<close>, \<open>isMuted\<close>, \<open>isPlaying\<close>) and one
  \<^verbatim>\<open>useRef\<close> cell holding a JavaScript \<^verbatim>\<open>Map\<close> from entry id to the mounted
  \<^verbatim>\<open><video>\<close> element (\<open>videoRefs\<close>). The host calls the code makes
  (\<^verbatim>\<open>crypto.randomUUID\<close>, \<^verbatim>\<open>URL.createObjectURL\<close>, \<^verbatim>\<open>URL.revokeObjectURL\<close>,
  \<^verbatim>\<open>video.play\<close>, \<^verbatim>\<open>video.pause\<close>, \<^verbatim>\<open>console.error\<close>) are recorded in the same state
  record, so that what was called, and how often, can be read off.
\<close>

subsection \<open>Data\<close>

text \<open>
  Identifiers and object URLs are opaque strings chosen by the host. They are modelled by
  natural numbers drawn from two counters, so that every call returns a value not returned
  before.
\<close>

type_synonym uuid = nat
type_synonym objurl = nat

text \<open>A dropped \<^verbatim>\<open>File\<close>: its name and its media type (\<^verbatim>\<open>file.type\<close>).\<close>

record jsfile =
  fname :: string
  ftype :: string

text \<open>An element of \<open>videos\<close>: \<^verbatim>\<open>{ id: string; url: string }\<close>.\<close>

record video =
  id_v :: uuid
  url :: objurl

text \<open>
  The two properties of an \<^verbatim>\<open>HTMLVideoElement\<close> that the code writes. The DOM accepts
  a volume in \<open>[0, 1]\<close> only and raises \<^verbatim>\<open>IndexSizeError\<close> for any other; the slider that
  feeds \<open>globalVolume\<close> has \<^verbatim>\<open>min="0" max="1"\<close> and delivers no other. The model has
  no such exception: an assignment is a plain field update, and what is stated about the
  volumes written is stated for values in \<open>[0, 1]\<close>.
\<close>

record element =
  volume :: real
  muted :: bool

text \<open>A call of \<^verbatim>\<open>pause()\<close> or \<^verbatim>\<open>play()\<close> on the element bound under an id.\<close>

datatype media_call = Pause uuid | Play uuid

record page =
  videos :: "video list"
  globalVolume :: real
  isMuted :: bool
  isPlaying :: bool
  videoRefs :: "(uuid \<times> element) list"
  objects :: "(objurl \<times> jsfile) list"
  revoked :: "objurl list"
  media_calls :: "media_call list"
  console_errors :: "uuid list"
  next_uuid :: nat
  next_url :: nat

text \<open>
  \<open>videoRefs\<close> is an association list because a JavaScript \<^verbatim>\<open>Map\<close> iterates in
  insertion order: \<^verbatim>\<open>set\<close> is \<^const>\<open>AList.update\<close> (an existing key keeps its place, a
  new one goes to the end), \<^verbatim>\<open>delete\<close> is \<^const>\<open>AList.delete\<close>, \<^verbatim>\<open>clear\<close> is \<open>[]\<close>.
  \<open>objects\<close> records which file each object URL was created from, \<open>revoked\<close> every call
  of \<^verbatim>\<open>URL.revokeObjectURL\<close> in order, \<open>media_calls\<close> every \<^verbatim>\<open>pause()\<close> and \<^verbatim>\<open>play()\<close>,
  \<open>console_errors\<close> the id whose \<^verbatim>\<open>play()\<close> promise was rejected, once per
  \<^verbatim>\<open>console.error\<close>.
\<close>

text \<open>The state after the first render: the arguments of the \<^verbatim>\<open>useState\<close> calls.\<close>

definition initial :: page where
  "initial = \<lparr>videos = [], globalVolume = 0.5, isMuted = False, isPlaying = True,
     videoRefs = [], objects = [], revoked = [], media_calls = [], console_errors = [],
     next_uuid = 0, next_url = 0\<rparr>"

subsection \<open>The callbacks\<close>

text \<open>\<^verbatim>\<open>file.type.startsWith('video/')\<close>\<close>

definition isVideoFile :: "jsfile \<Rightarrow> bool" where
  "isVideoFile f = prefix ''video/'' (ftype f)"

text \<open>
  \<^verbatim>\<open>videoFiles.map(file => ({ id: crypto.randomUUID(), url: URL.createObjectURL(file) }))\<close>:
  left to right, one identifier and one object URL per file.
\<close>

fun newVideos :: "jsfile list \<Rightarrow> page \<Rightarrow> video list \<times> page" where
  "newVideos [] s = ([], s)"
| "newVideos (f # fs) s =
     (let v = \<lparr>id_v = next_uuid s, url = next_url s\<rparr>;
          s1 = s\<lparr>objects := objects s @ [(next_url s, f)],
                 next_uuid := Suc (next_uuid s), next_url := Suc (next_url s)\<rparr>;
          r = newVideos fs s1
      in (v # fst r, snd r))"

text \<open>\<^verbatim>\<open>handleDrop\<close>, with the updater \<^verbatim>\<open>prev => [...prev, ...newVideos]\<close> applied.\<close>

definition handleDrop :: "jsfile list \<Rightarrow> page \<Rightarrow> page" where
  "handleDrop files s =
     (let videoFiles = filter isVideoFile files;
          r = newVideos videoFiles s
      in (snd r)\<lparr>videos := videos s @ fst r\<rparr>)"

text \<open>
  \<^verbatim>\<open>setVideoRef(element, id)\<close>. The callback is rebuilt whenever \<open>globalVolume\<close> or
  \<open>isMuted\<close> changes (its dependency list), so the two values it closes over are
  the current ones; they are its first two arguments here.
\<close>

definition setVideoRef ::
  "real \<Rightarrow> bool \<Rightarrow> element option \<Rightarrow> uuid \<Rightarrow> (uuid \<times> element) list \<Rightarrow> (uuid \<times> element) list" where
  "setVideoRef gv m el k refs =
     (case el of
        Some e \<Rightarrow> AList.update k (e\<lparr>volume := gv, muted := m\<rparr>) refs
      | None \<Rightarrow> AList.delete k refs)"

text \<open>
  \<^verbatim>\<open>removeVideo(id)\<close>, with its updater applied: \<^verbatim>\<open>prev.find\<close>, the revocation of the
  entry found, \<^verbatim>\<open>prev.filter\<close>; then \<^verbatim>\<open>videoRefs.current.delete(id)\<close>.
\<close>

definition removeVideo :: "uuid \<Rightarrow> page \<Rightarrow> page" where
  "removeVideo k s =
     (let s1 = (case find (\<lambda>v. id_v v = k) (videos s) of
                  Some v \<Rightarrow> s\<lparr>revoked := revoked s @ [url v]\<rparr>
                | None \<Rightarrow> s)
      in s1\<lparr>videos := filter (\<lambda>v. id_v v \<noteq> k) (videos s),
            videoRefs := AList.delete k (videoRefs s1)\<rparr>)"

text \<open>
  \<^verbatim>\<open>clearAllVideos\<close>. Its first argument is the value of \<open>videos\<close> that the callback
  closes over.
\<close>

definition clearAllVideos :: "video list \<Rightarrow> page \<Rightarrow> page" where
  "clearAllVideos captured s =
     s\<lparr>revoked := revoked s @ map url captured, videos := [], videoRefs := []\<rparr>"

text \<open>\<^verbatim>\<open>toggleMute\<close>: \<^verbatim>\<open>setIsMuted(prev => !prev)\<close>.\<close>

definition toggleMute :: "page \<Rightarrow> page" where
  "toggleMute s = s\<lparr>isMuted := \<not> isMuted s\<rparr>"

text \<open>
  The body of the \<^verbatim>\<open>forEach\<close> in \<^verbatim>\<open>togglePlayPause\<close>, for the element bound under \<open>k\<close>.
  \<open>playing\<close> is the value of \<open>isPlaying\<close> the callback closes over. Whether a
  \<^verbatim>\<open>play()\<close> promise is rejected is the host's choice, \<open>rejects k\<close>; a rejection reaches
  the \<^verbatim>\<open>catch\<close> handler, which logs it. A rejected promise is not an exception: the loop
  goes on.
\<close>

definition playOrPause :: "bool \<Rightarrow> (uuid \<Rightarrow> bool) \<Rightarrow> uuid \<Rightarrow> page \<Rightarrow> page" where
  "playOrPause playing rejects k s =
     (if playing then s\<lparr>media_calls := media_calls s @ [Pause k]\<rparr>
      else (let s1 = s\<lparr>media_calls := media_calls s @ [Play k]\<rparr>
            in if rejects k then s1\<lparr>console_errors := console_errors s1 @ [k]\<rparr> else s1))"

text \<open>
  \<^verbatim>\<open>togglePlayPause\<close>: the dependency list is \<^verbatim>\<open>[isPlaying]\<close>, so the value closed over
  is the current one.
\<close>

definition togglePlayPause :: "(uuid \<Rightarrow> bool) \<Rightarrow> page \<Rightarrow> page" where
  "togglePlayPause rejects s =
     (let s1 = fold (playOrPause (isPlaying s) rejects) (map fst (videoRefs s)) s
      in s1\<lparr>isPlaying := \<not> isPlaying s\<rparr>)"

subsection \<open>The effects\<close>

text \<open>
  The body of the first effect (dependencies \<^verbatim>\<open>[globalVolume, isMuted]\<close>):
  every bound element receives the two global settings.
\<close>

definition syncVolume :: "page \<Rightarrow> page" where
  "syncVolume s =
     s\<lparr>videoRefs := map (\<lambda>(k, e). (k, e\<lparr>volume := globalVolume s, muted := isMuted s\<rparr>))
                        (videoRefs s)\<rparr>"

text \<open>
  The cleanup function returned by the second effect (dependencies \<^verbatim>\<open>[videos]\<close>):
  \<^verbatim>\<open>videos.forEach(video => URL.revokeObjectURL(video.url))\<close>, over the value of \<open>videos\<close>
  of the render that installed it.
\<close>

definition revokeAll :: "video list \<Rightarrow> page \<Rightarrow> page" where
  "revokeAll captured s = s\<lparr>revoked := revoked s @ map url captured\<rparr>"

subsection \<open>Rendering\<close>

text \<open>
  Every \<^verbatim>\<open><video>\<close> is rendered with \<^verbatim>\<open>ref={(el) => setVideoRef(el, video.id)}\<close>, a new
  function at each render. React therefore calls the previous function with \<^verbatim>\<open>null\<close> for
  every element of the previous render, and then the new function with the element for
  every element of the new render. The element handed over is the one already mounted
  under that key, or a new one with the DOM's defaults.
\<close>

definition newElement :: element where
  "newElement = \<lparr>volume = 1, muted = False\<rparr>"

definition mounted :: "(uuid \<times> element) list \<Rightarrow> uuid \<Rightarrow> element" where
  "mounted refs k = (case map_of refs k of Some e \<Rightarrow> e | None \<Rightarrow> newElement)"

definition detachRefs ::
  "real \<Rightarrow> bool \<Rightarrow> video list \<Rightarrow> (uuid \<times> element) list \<Rightarrow> (uuid \<times> element) list" where
  "detachRefs gv m vs refs =
     fold (\<lambda>v. setVideoRef gv m None (id_v v)) vs refs"

definition attachRefs ::
  "real \<Rightarrow> bool \<Rightarrow> (uuid \<times> element) list \<Rightarrow> video list \<Rightarrow> (uuid \<times> element) list
     \<Rightarrow> (uuid \<times> element) list" where
  "attachRefs gv m shown vs refs =
     fold (\<lambda>v. setVideoRef gv m (Some (mounted shown (id_v v))) (id_v v)) vs refs"

text \<open>
  \<open>rerender s0 s\<close>: the state \<open>s0\<close> is the one the previous render showed, \<open>s\<close> the state
  after the callback has run and the state updates have been applied. The refs of the
  previous render are detached by its own \<^verbatim>\<open>setVideoRef\<close>, those of the new render
  attached by the new one.
\<close>

definition rerender :: "page \<Rightarrow> page \<Rightarrow> page" where
  "rerender s0 s =
     s\<lparr>videoRefs := attachRefs (globalVolume s) (isMuted s) (videoRefs s0) (videos s)
                        (detachRefs (globalVolume s0) (isMuted s0) (videos s0) (videoRefs s))\<rparr>"

subsection \<open>The events\<close>

text \<open>
  An event runs its callback, re-renders, and then runs the effects whose dependencies
  changed: the cleanup of the previous render first.

  \<^item> Every call of \<^verbatim>\<open>setVideos\<close> passes a newly built array (\<^verbatim>\<open>[...prev, ...newVideos]\<close>,
    \<^verbatim>\<open>prev.filter(...)\<close>, \<^verbatim>\<open>[]\<close>), so \<open>videos\<close> always counts as changed and the cleanup of
    the second effect runs over the previous value of \<open>videos\<close>.
  \<^item> \<^verbatim>\<open>clearAllVideos\<close> is built with the dependency list \<^verbatim>\<open>[]\<close>: it is the function of
    the first render for ever, and the \<open>videos\<close> it reads is the initial \<open>[]\<close>.
  \<^item> \<^verbatim>\<open>setGlobalVolume\<close> with the value already stored changes nothing: React compares
    with \<^verbatim>\<open>Object.is\<close> and does not render again.
\<close>

definition onDrop :: "jsfile list \<Rightarrow> page \<Rightarrow> page" where
  "onDrop files s = revokeAll (videos s) (rerender s (handleDrop files s))"

definition onClickRemove :: "uuid \<Rightarrow> page \<Rightarrow> page" where
  "onClickRemove k s = revokeAll (videos s) (rerender s (removeVideo k s))"

definition onClickClear :: "page \<Rightarrow> page" where
  "onClickClear s = revokeAll (videos s) (rerender s (clearAllVideos (videos initial) s))"

definition onChangeVolume :: "real \<Rightarrow> page \<Rightarrow> page" where
  "onChangeVolume v s =
     (if v = globalVolume s then s
      else syncVolume (rerender s (s\<lparr>globalVolume := v\<rparr>)))"

definition onClickMute :: "page \<Rightarrow> page" where
  "onClickMute s = syncVolume (rerender s (toggleMute s))"

definition onClickPlayPause :: "(uuid \<Rightarrow> bool) \<Rightarrow> page \<Rightarrow> page" where
  "onClickPlayPause rejects s = rerender s (togglePlayPause rejects s)"

text \<open>Unmounting the component: every ref is detached and the pending cleanup runs.\<close>

definition unmount :: "page \<Rightarrow> page" where
  "unmount s =
     revokeAll (videos s)
       (s\<lparr>videoRefs := detachRefs (globalVolume s) (isMuted s) (videos s) (videoRefs s)\<rparr>)"

datatype event =
    Drop "jsfile list"
  | Remove uuid
  | Clear
  | Volume real
  | Mute
  | PlayPause "uuid \<Rightarrow> bool"
  | Unmount

fun step :: "page \<Rightarrow> event \<Rightarrow> page" where
  "step s (Drop files) = onDrop files s"
| "step s (Remove k) = onClickRemove k s"
| "step s Clear = onClickClear s"
| "step s (Volume v) = onChangeVolume v s"
| "step s Mute = onClickMute s"
| "step s (PlayPause rejects) = onClickPlayPause rejects s"
| "step s Unmount = unmount s"

definition run :: "event list \<Rightarrow> page \<Rightarrow> page" where
  "run es s = foldl step s es"

subsection \<open>States between events\<close>

text \<open>
  After a render the table of bound elements mirrors the list of entries: one element per
  entry, in the order of the list, carrying the two global settings. Identifiers are
  pairwise different and were all handed out by the counter. \<open>committed\<close> holds of the
  initial state and is kept by every event but the unmount (\<open>committed_initial\<close>,
  \<open>committed_step\<close> below). A change made with an element's own controls is not among
  the events, and \<open>committed\<close> does not hold after one; no theorem of the last section
  assumes it.
\<close>

definition committed :: "page \<Rightarrow> bool" where
  "committed s \<longleftrightarrow>
     distinct (map id_v (videos s)) \<and>
     list_all (\<lambda>v. id_v v < next_uuid s) (videos s) \<and>
     videoRefs s =
       map (\<lambda>v. (id_v v, \<lparr>volume = globalVolume s, muted = isMuted s\<rparr>)) (videos s)"

subsection \<open>A payload for the examples\<close>

definition clip :: jsfile where
  "clip = \<lparr>fname = ''a.mp4'', ftype = ''video/mp4''\<rparr>"

definition memo :: jsfile where
  "memo = \<lparr>fname = ''notes.txt'', ftype = ''text/plain''\<rparr>"

definition loop :: jsfile where
  "loop = \<lparr>fname = ''b.webm'', ftype = ''video/webm''\<rparr>"

text \<open>The page after the three files have been dropped on the initial page.\<close>

definition two_videos :: page where
  "two_videos = run [Drop [clip, memo, loop]] initial"

text \<open>The same page after one click on the play/pause button.\<close>

definition two_paused :: page where
  "two_paused = run [Drop [clip, memo, loop], PlayPause (\<lambda>k. False)] initial"

text \<open>
  The page \<open>two_videos\<close> after the user has turned the first element up and muted it with
  the element's own controls (\<^verbatim>\<open>controls\<close> is set on every \<^verbatim>\<open><video>\<close>): the element no
  longer carries the global settings.
\<close>

definition two_adjusted :: page where
  "two_adjusted =
     two_videos\<lparr>videoRefs := [(0, \<lparr>volume = 0.9, muted = True\<rparr>),
                              (1, \<lparr>volume = 0.5, muted = False\<rparr>)]\<rparr>"

subsection \<open>The specification's clamp\<close>


section \<open>Basic facts\<close>

lemmas eval_defs = run_def onDrop_def onClickRemove_def onClickClear_def onChangeVolume_def
  onClickMute_def onClickPlayPause_def unmount_def handleDrop_def removeVideo_def
  clearAllVideos_def toggleMute_def togglePlayPause_def playOrPause_def syncVolume_def
  revokeAll_def rerender_def attachRefs_def detachRefs_def setVideoRef_def mounted_def
  newElement_def initial_def isVideoFile_def clip_def memo_def loop_def Let_def

lemma two_videos_eq:
  "two_videos =
     \<lparr>videos = [\<lparr>id_v = 0, url = 0\<rparr>, \<lparr>id_v = 1, url = 1\<rparr>],
      globalVolume = 0.5, isMuted = False, isPlaying = True,
      videoRefs = [(0, \<lparr>volume = 0.5, muted = False\<rparr>), (1, \<lparr>volume = 0.5, muted = False\<rparr>)],
      objects = [(0, clip), (1, loop)],
      revoked = [], media_calls = [], console_errors = [], next_uuid = 2, next_url = 2\<rparr>"
  by (simp add: two_videos_def eval_defs)

lemma two_paused_eq:
  "two_paused =
     \<lparr>videos = [\<lparr>id_v = 0, url = 0\<rparr>, \<lparr>id_v = 1, url = 1\<rparr>],
      globalVolume = 0.5, isMuted = False, isPlaying = False,
      videoRefs = [(0, \<lparr>volume = 0.5, muted = False\<rparr>), (1, \<lparr>volume = 0.5, muted = False\<rparr>)],
      objects = [(0, clip), (1, loop)],
      revoked = [], media_calls = [Pause 0, Pause 1], console_errors = [],
      next_uuid = 2, next_url = 2\<rparr>"
  by (simp add: two_paused_def eval_defs)

lemma newVideos_length: "length (fst (newVideos fs s)) = length fs"
  by (induction fs arbitrary: s) (simp_all add: Let_def)

lemma newVideos_frame:
  "videos (snd (newVideos fs s)) = videos s \<and>
   globalVolume (snd (newVideos fs s)) = globalVolume s \<and>
   isMuted (snd (newVideos fs s)) = isMuted s \<and>
   isPlaying (snd (newVideos fs s)) = isPlaying s \<and>
   videoRefs (snd (newVideos fs s)) = videoRefs s \<and>
   revoked (snd (newVideos fs s)) = revoked s \<and>
   media_calls (snd (newVideos fs s)) = media_calls s \<and>
   console_errors (snd (newVideos fs s)) = console_errors s"
  by (induction fs arbitrary: s) (simp_all add: Let_def)

lemma newVideos_objects:
  "objects (snd (newVideos fs s)) = objects s @ zip (map url (fst (newVideos fs s))) fs"
  by (induction fs arbitrary: s) (simp_all add: Let_def)

lemma rerender_frame:
  "videos (rerender s0 s) = videos s \<and> globalVolume (rerender s0 s) = globalVolume s \<and>
   isMuted (rerender s0 s) = isMuted s \<and> isPlaying (rerender s0 s) = isPlaying s \<and>
   revoked (rerender s0 s) = revoked s \<and> media_calls (rerender s0 s) = media_calls s \<and>
   console_errors (rerender s0 s) = console_errors s \<and> objects (rerender s0 s) = objects s \<and>
   next_uuid (rerender s0 s) = next_uuid s"
  by (simp add: rerender_def)

lemma revokeAll_frame:
  "videos (revokeAll c s) = videos s \<and> globalVolume (revokeAll c s) = globalVolume s \<and>
   isMuted (revokeAll c s) = isMuted s \<and> isPlaying (revokeAll c s) = isPlaying s \<and>
   videoRefs (revokeAll c s) = videoRefs s \<and> media_calls (revokeAll c s) = media_calls s \<and>
   console_errors (revokeAll c s) = console_errors s \<and> objects (revokeAll c s) = objects s \<and>
   next_uuid (revokeAll c s) = next_uuid s \<and>
   revoked (revokeAll c s) = revoked s @ map url c"
  by (simp add: revokeAll_def)

lemma handleDrop_videos:
  "videos (handleDrop files s) = videos s @ fst (newVideos (filter isVideoFile files) s)"
  by (simp add: handleDrop_def Let_def)

lemma handleDrop_frame:
  "globalVolume (handleDrop files s) = globalVolume s \<and>
   isMuted (handleDrop files s) = isMuted s \<and>
   isPlaying (handleDrop files s) = isPlaying s \<and>
   videoRefs (handleDrop files s) = videoRefs s \<and>
   revoked (handleDrop files s) = revoked s"
  by (simp add: handleDrop_def Let_def newVideos_frame)

lemma handleDrop_objects:
  "objects (handleDrop files s) =
     objects s @ zip (map url (fst (newVideos (filter isVideoFile files) s)))
                     (filter isVideoFile files)"
  by (simp add: handleDrop_def Let_def newVideos_objects)

lemma onDrop_videos:
  "videos (onDrop files s) = videos s @ fst (newVideos (filter isVideoFile files) s)"
  by (simp add: onDrop_def revokeAll_frame rerender_frame handleDrop_videos)

lemma playOrPause_fold:
  "media_calls (fold (playOrPause p r) ks s) =
     media_calls s @ map (if p then Pause else Play) ks \<and>
   console_errors (fold (playOrPause p r) ks s) =
     console_errors s @ (if p then [] else filter r ks) \<and>
   isPlaying (fold (playOrPause p r) ks s) = isPlaying s \<and>
   videos (fold (playOrPause p r) ks s) = videos s \<and>
   videoRefs (fold (playOrPause p r) ks s) = videoRefs s \<and>
   globalVolume (fold (playOrPause p r) ks s) = globalVolume s \<and>
   isMuted (fold (playOrPause p r) ks s) = isMuted s \<and>
   next_uuid (fold (playOrPause p r) ks s) = next_uuid s \<and>
   revoked (fold (playOrPause p r) ks s) = revoked s"
  by (induction ks arbitrary: s) (simp_all add: playOrPause_def Let_def)

lemma onClickPlayPause_calls:
  "media_calls (onClickPlayPause r s) =
     media_calls s @ map (if isPlaying s then Pause else Play) (map fst (videoRefs s))"
  by (simp add: onClickPlayPause_def rerender_frame togglePlayPause_def Let_def playOrPause_fold)

lemma onClickPlayPause_errors:
  "console_errors (onClickPlayPause r s) =
     console_errors s @ (if isPlaying s then [] else filter r (map fst (videoRefs s)))"
  by (simp add: onClickPlayPause_def rerender_frame togglePlayPause_def Let_def playOrPause_fold)

lemma onClickPlayPause_flips: "isPlaying (onClickPlayPause r s) = (\<not> isPlaying s)"
  by (simp add: onClickPlayPause_def rerender_frame togglePlayPause_def Let_def)

lemma isPlaying_others:
  "isPlaying (onDrop files s) = isPlaying s"
  "isPlaying (onClickRemove k s) = isPlaying s"
  "isPlaying (onClickClear s) = isPlaying s"
  "isPlaying (onChangeVolume v s) = isPlaying s"
  "isPlaying (onClickMute s) = isPlaying s"
  "isPlaying (unmount s) = isPlaying s"
  by (simp_all add: onDrop_def onClickRemove_def onClickClear_def onChangeVolume_def
      onClickMute_def unmount_def revokeAll_def rerender_def syncVolume_def handleDrop_def
      removeVideo_def clearAllVideos_def toggleMute_def Let_def newVideos_frame
      split: option.splits)

subsection \<open>Detaching and attaching refs\<close>

lemma element_overwrite: "(e::element)\<lparr>volume := gv, muted := m\<rparr> = \<lparr>volume = gv, muted = m\<rparr>"
  by (cases e) simp

lemma detachRefs_filter:
  "detachRefs gv m vs refs = filter (\<lambda>p. fst p \<notin> id_v ` set vs) refs"
proof (induction vs arbitrary: refs)
  case Nil
  then show ?case by (simp add: detachRefs_def)
next
  case (Cons v vs)
  have "detachRefs gv m (v # vs) refs = detachRefs gv m vs (AList.delete (id_v v) refs)"
    by (simp add: detachRefs_def setVideoRef_def)
  also have "\<dots> = filter (\<lambda>p. fst p \<notin> id_v ` set vs) (AList.delete (id_v v) refs)"
    by (rule Cons.IH)
  also have "\<dots> = filter (\<lambda>p. fst p \<notin> id_v ` set (v # vs)) refs"
    by (auto simp: AList.delete_eq intro: filter_cong)
  finally show ?case .
qed

lemma attachRefs_Nil: "attachRefs gv m shown [] refs = refs"
  by (simp add: attachRefs_def)

lemma attachRefs_Cons:
  "attachRefs gv m shown (v # vs) refs =
     attachRefs gv m shown vs (AList.update (id_v v) \<lparr>volume = gv, muted = m\<rparr> refs)"
  by (simp add: attachRefs_def setVideoRef_def element_overwrite)

lemma attachRefs_shown: "attachRefs gv m shown vs refs = attachRefs gv m shown' vs refs"
  by (induction vs arbitrary: refs) (simp_all add: attachRefs_Nil attachRefs_Cons)

lemma update_fresh: "k \<notin> fst ` set refs \<Longrightarrow> AList.update k e refs = refs @ [(k, e)]"
  by (induction refs) auto

lemma attachRefs_fresh:
  "distinct (map id_v vs) \<Longrightarrow> id_v ` set vs \<inter> fst ` set refs = {} \<Longrightarrow>
   attachRefs gv m shown vs refs = refs @ map (\<lambda>v. (id_v v, \<lparr>volume = gv, muted = m\<rparr>)) vs"
proof (induction vs arbitrary: refs)
  case Nil
  then show ?case by (simp add: attachRefs_Nil)
next
  case (Cons v vs)
  from Cons.prems have fresh: "id_v v \<notin> fst ` set refs" by auto
  let ?refs = "refs @ [(id_v v, \<lparr>volume = gv, muted = m\<rparr>)]"
  from Cons.prems have "distinct (map id_v vs)" and "id_v ` set vs \<inter> fst ` set ?refs = {}"
    by auto
  then have "attachRefs gv m shown vs ?refs = ?refs @ map (\<lambda>v. (id_v v, \<lparr>volume = gv, muted = m\<rparr>)) vs"
    by (rule Cons.IH)
  then show ?case by (simp add: attachRefs_Cons update_fresh [OF fresh])
qed

lemma filter_update_out:
  "\<not> P k \<Longrightarrow> filter (\<lambda>p. P (fst p)) (AList.update k e refs) = filter (\<lambda>p. P (fst p)) refs"
  by (induction refs) auto

lemma detach_attach:
  "id_v ` set vs \<subseteq> S \<Longrightarrow>
   filter (\<lambda>p. fst p \<notin> S) (attachRefs gv m shown vs refs) = filter (\<lambda>p. fst p \<notin> S) refs"
proof (induction vs arbitrary: refs)
  case Nil
  then show ?case by (simp add: attachRefs_Nil)
next
  case (Cons v vs)
  then have "id_v v \<in> S" and sub: "id_v ` set vs \<subseteq> S" by auto
  then have "filter (\<lambda>p. fst p \<notin> S) (AList.update (id_v v) \<lparr>volume = gv, muted = m\<rparr> refs)
             = filter (\<lambda>p. fst p \<notin> S) refs"
    using filter_update_out [of "\<lambda>k. k \<notin> S" "id_v v"] by simp
  with Cons.IH [OF sub] show ?case by (simp add: attachRefs_Cons)
qed

lemma attach_keys:
  "fst ` set (attachRefs gv m shown vs refs) = fst ` set refs \<union> id_v ` set vs"
proof (induction vs arbitrary: refs)
  case Nil
  then show ?case by (simp add: attachRefs_Nil)
next
  case (Cons v vs)
  have "fst ` set (AList.update (id_v v) \<lparr>volume = gv, muted = m\<rparr> refs) = insert (id_v v) (fst ` set refs)"
    by (simp add: AList.dom_update)
  with Cons.IH show ?case by (simp add: attachRefs_Cons)
qed

lemma filter_ne_idem:
  "filter (\<lambda>v. id_v v \<noteq> k) (filter (\<lambda>v. id_v v \<noteq> k) vs) = filter (\<lambda>v. id_v v \<noteq> k) vs"
  by simp

lemma removeVideo_fields:
  "videos (removeVideo k s) = filter (\<lambda>v. id_v v \<noteq> k) (videos s) \<and>
   videoRefs (removeVideo k s) = AList.delete k (videoRefs s) \<and>
   globalVolume (removeVideo k s) = globalVolume s \<and>
   isMuted (removeVideo k s) = isMuted s \<and>
   next_uuid (removeVideo k s) = next_uuid s"
  by (simp add: removeVideo_def Let_def split: option.splits)

lemma onClickRemove_videos:
  "videos (onClickRemove k s) = filter (\<lambda>v. id_v v \<noteq> k) (videos s)"
  by (simp add: onClickRemove_def revokeAll_def rerender_def removeVideo_fields)

lemma onClickRemove_settings:
  "globalVolume (onClickRemove k s) = globalVolume s"
  "isMuted (onClickRemove k s) = isMuted s"
  "next_uuid (onClickRemove k s) = next_uuid s"
  by (simp_all add: onClickRemove_def revokeAll_def rerender_def removeVideo_fields)

lemma onClickRemove_refs:
  "videoRefs (onClickRemove k s) =
     attachRefs (globalVolume s) (isMuted s) (videoRefs s) (filter (\<lambda>v. id_v v \<noteq> k) (videos s))
       (filter (\<lambda>p. fst p \<notin> id_v ` set (videos s)) (AList.delete k (videoRefs s)))"
  by (simp add: onClickRemove_def revokeAll_def rerender_def removeVideo_fields detachRefs_filter)

lemma remove_not_bound: "k \<notin> fst ` set (videoRefs (onClickRemove k s))"
  by (auto simp: onClickRemove_refs attach_keys AList.delete_eq)

lemma remove_table_idem:
  "videoRefs (onClickRemove k (onClickRemove k s)) = videoRefs (onClickRemove k s)"
proof -
  let ?V0 = "videos s" and ?T0 = "videoRefs s"
  let ?V1 = "filter (\<lambda>v. id_v v \<noteq> k) ?V0"
  let ?D0 = "filter (\<lambda>p. fst p \<notin> id_v ` set ?V0) (AList.delete k ?T0)"
  let ?T1 = "videoRefs (onClickRemove k s)"
  let ?gv = "globalVolume s" and ?m = "isMuted s"
  have T1: "?T1 = attachRefs ?gv ?m ?T0 ?V1 ?D0"
    by (rule onClickRemove_refs)
  have del: "AList.delete k ?T1 = ?T1"
    using remove_not_bound [of k s] by (rule AList.delete_id)
  have "filter (\<lambda>p. fst p \<notin> id_v ` set ?V1) ?T1 = filter (\<lambda>p. fst p \<notin> id_v ` set ?V1) ?D0"
    unfolding T1 by (rule detach_attach) simp
  also have "\<dots> = ?D0"
    unfolding filter_id_conv by auto
  finally have det: "filter (\<lambda>p. fst p \<notin> id_v ` set ?V1) ?T1 = ?D0" .
  have "videoRefs (onClickRemove k (onClickRemove k s))
          = attachRefs ?gv ?m ?T1 ?V1 (filter (\<lambda>p. fst p \<notin> id_v ` set ?V1) (AList.delete k ?T1))"
    by (simp only: onClickRemove_refs [of k "onClickRemove k s"] onClickRemove_videos
        onClickRemove_settings filter_ne_idem)
  also have "\<dots> = attachRefs ?gv ?m ?T1 ?V1 ?D0"
    by (simp only: del det)
  also have "\<dots> = attachRefs ?gv ?m ?T0 ?V1 ?D0"
    by (rule attachRefs_shown)
  finally show ?thesis by (simp only: T1)
qed

lemma rerender_committed:
  assumes "distinct (map id_v (videos s))" and "fst ` set (videoRefs s) \<subseteq> id_v ` set (videos s0)"
  shows "videoRefs (rerender s0 s) =
           map (\<lambda>v. (id_v v, \<lparr>volume = globalVolume s, muted = isMuted s\<rparr>)) (videos s)"
proof -
  have "detachRefs (globalVolume s0) (isMuted s0) (videos s0) (videoRefs s) = []"
    using assms(2) by (auto simp: detachRefs_filter filter_empty_conv)
  then show ?thesis
    using attachRefs_fresh [OF assms(1), of "[]"] by (simp add: rerender_def)
qed

lemma committed_keys: "committed s \<Longrightarrow> fst ` set (videoRefs s) = id_v ` set (videos s)"
  by (force simp: committed_def)

lemma delete_map_entries:
  "AList.delete k (map (\<lambda>v. (id_v v, e)) vs) = map (\<lambda>v. (id_v v, e)) (filter (\<lambda>v. id_v v \<noteq> k) vs)"
  by (induction vs) auto

lemma committed_remove_table:
  assumes "committed s"
  shows "videoRefs (onClickRemove k s) = AList.delete k (videoRefs s)"
proof -
  let ?E = "\<lparr>volume = globalVolume s, muted = isMuted s\<rparr>"
  from assms have d: "distinct (map id_v (videos (removeVideo k s)))"
    by (simp add: committed_def removeVideo_fields distinct_map_filter)
  have sub: "fst ` set (videoRefs (removeVideo k s)) \<subseteq> id_v ` set (videos s)"
    using committed_keys [OF assms] by (auto simp: removeVideo_fields AList.delete_eq)
  have "videoRefs (onClickRemove k s) = map (\<lambda>v. (id_v v, ?E)) (filter (\<lambda>v. id_v v \<noteq> k) (videos s))"
    using rerender_committed [OF d sub]
    by (simp add: onClickRemove_def revokeAll_def removeVideo_fields)
  also have "\<dots> = AList.delete k (map (\<lambda>v. (id_v v, ?E)) (videos s))"
    by (rule delete_map_entries [symmetric])
  also have "\<dots> = AList.delete k (videoRefs s)"
    using assms by (simp add: committed_def)
  finally show ?thesis .
qed

subsection \<open>Every event leads from a committed state to a committed state\<close>

lemma newVideos_ids:
  "(\<forall>v \<in> set (fst (newVideos fs s)).
      next_uuid s \<le> id_v v \<and> id_v v < next_uuid s + length fs) \<and>
   distinct (map id_v (fst (newVideos fs s))) \<and>
   next_uuid (snd (newVideos fs s)) = next_uuid s + length fs"
proof (induction fs arbitrary: s)
  case Nil
  then show ?case by simp
next
  case (Cons f fs)
  let ?s1 = "s\<lparr>objects := objects s @ [(next_url s, f)],
                 next_uuid := Suc (next_uuid s), next_url := Suc (next_url s)\<rparr>"
  from Cons.IH [of ?s1] show ?case
    by (fastforce simp: Let_def)
qed

lemma committedI:
  assumes "distinct (map id_v (videos s))"
    and "\<forall>v \<in> set (videos s). id_v v < next_uuid s"
    and "videoRefs s = map (\<lambda>v. (id_v v, \<lparr>volume = globalVolume s, muted = isMuted s\<rparr>)) (videos s)"
  shows "committed s"
  using assms by (simp add: committed_def list_all_iff)

lemma committedD:
  assumes "committed s"
  shows "distinct (map id_v (videos s))"
    and "\<And>v. v \<in> set (videos s) \<Longrightarrow> id_v v < next_uuid s"
    and "videoRefs s = map (\<lambda>v. (id_v v, \<lparr>volume = globalVolume s, muted = isMuted s\<rparr>)) (videos s)"
  using assms by (simp_all add: committed_def list_all_iff)

lemma committed_initial: "committed initial"
  by (simp add: committed_def initial_def)

lemma committed_onDrop:
  assumes "committed s"
  shows "committed (onDrop files s)"
proof (rule committedI)
  let ?fs = "filter isVideoFile files"
  let ?new = "fst (newVideos ?fs s)"
  have nu: "next_uuid (onDrop files s) = next_uuid s + length ?fs"
    by (simp add: onDrop_def revokeAll_frame rerender_frame handleDrop_def Let_def newVideos_ids)
  have new_ge: "next_uuid s \<le> id_v v \<and> id_v v < next_uuid s + length ?fs" if "v \<in> set ?new" for v
    using that newVideos_ids [of ?fs s] by blast
  have "distinct (map id_v ?new)"
    by (simp add: newVideos_ids)
  moreover have "id_v ` set (videos s) \<inter> id_v ` set ?new = {}"
    using committedD(2) [OF assms] new_ge by fastforce
  ultimately show d: "distinct (map id_v (videos (onDrop files s)))"
    using committedD(1) [OF assms] by (simp add: onDrop_videos)
  show "\<forall>v \<in> set (videos (onDrop files s)). id_v v < next_uuid (onDrop files s)"
    using committedD(2) [OF assms] new_ge by (fastforce simp: onDrop_videos nu)
  have "fst ` set (videoRefs (handleDrop files s)) \<subseteq> id_v ` set (videos s)"
    using committed_keys [OF assms] by (simp add: handleDrop_frame)
  moreover from d have "distinct (map id_v (videos (handleDrop files s)))"
    by (simp add: onDrop_videos handleDrop_videos)
  ultimately show "videoRefs (onDrop files s) =
      map (\<lambda>v. (id_v v, \<lparr>volume = globalVolume (onDrop files s), muted = isMuted (onDrop files s)\<rparr>))
        (videos (onDrop files s))"
    using rerender_committed [of "handleDrop files s" s]
    by (simp add: onDrop_def revokeAll_frame rerender_frame handleDrop_frame)
qed

lemma committed_onClickRemove:
  assumes "committed s"
  shows "committed (onClickRemove k s)"
proof (rule committedI)
  show "distinct (map id_v (videos (onClickRemove k s)))"
    using committedD(1) [OF assms] by (simp add: onClickRemove_videos distinct_map_filter)
  show "\<forall>v \<in> set (videos (onClickRemove k s)). id_v v < next_uuid (onClickRemove k s)"
    using committedD(2) [OF assms] by (simp add: onClickRemove_videos onClickRemove_settings)
  show "videoRefs (onClickRemove k s) =
      map (\<lambda>v. (id_v v, \<lparr>volume = globalVolume (onClickRemove k s), muted = isMuted (onClickRemove k s)\<rparr>))
        (videos (onClickRemove k s))"
    by (simp add: committed_remove_table [OF assms] committedD(3) [OF assms] delete_map_entries
        onClickRemove_videos onClickRemove_settings)
qed

lemma committed_onClickClear: "committed (onClickClear s)"
  by (simp add: committed_def onClickClear_def revokeAll_def rerender_def clearAllVideos_def
      attachRefs_Nil detachRefs_filter)

lemma committed_rerender:
  assumes "committed s0"
    and "videos s = videos s0" and "videoRefs s = videoRefs s0" and "next_uuid s = next_uuid s0"
  shows "committed (rerender s0 s)"
proof (rule committedI)
  show "distinct (map id_v (videos (rerender s0 s)))"
    using committedD(1) [OF assms(1)] by (simp add: rerender_frame assms(2))
  show "\<forall>v \<in> set (videos (rerender s0 s)). id_v v < next_uuid (rerender s0 s)"
    using committedD(2) [OF assms(1)] by (simp add: rerender_frame assms(2,4))
  have "distinct (map id_v (videos s))" and "fst ` set (videoRefs s) \<subseteq> id_v ` set (videos s0)"
    using committedD(1) [OF assms(1)] committed_keys [OF assms(1)] by (simp_all add: assms(2,3))
  then show "videoRefs (rerender s0 s) =
      map (\<lambda>v. (id_v v, \<lparr>volume = globalVolume (rerender s0 s), muted = isMuted (rerender s0 s)\<rparr>))
        (videos (rerender s0 s))"
    using rerender_committed [of s s0] by (simp add: rerender_frame)
qed

lemma committed_syncVolume: "committed s \<Longrightarrow> committed (syncVolume s)"
  by (simp add: committed_def syncVolume_def comp_def)

lemma committed_onChangeVolume:
  assumes "committed s"
  shows "committed (onChangeVolume v s)"
proof (cases "v = globalVolume s")
  case True
  with assms show ?thesis by (simp add: onChangeVolume_def)
next
  case False
  have "committed (rerender s (s\<lparr>globalVolume := v\<rparr>))"
    using assms by (rule committed_rerender) simp_all
  then show ?thesis
    using False by (simp add: onChangeVolume_def committed_syncVolume)
qed

lemma committed_onClickMute:
  assumes "committed s"
  shows "committed (onClickMute s)"
proof -
  have "committed (rerender s (toggleMute s))"
    using assms by (rule committed_rerender) (simp_all add: toggleMute_def)
  then show ?thesis
    by (simp add: onClickMute_def committed_syncVolume)
qed

lemma committed_onClickPlayPause:
  assumes "committed s"
  shows "committed (onClickPlayPause r s)"
  unfolding onClickPlayPause_def
  using assms by (rule committed_rerender) (simp_all add: togglePlayPause_def Let_def playOrPause_fold)

lemma committed_step: "committed s \<Longrightarrow> e \<noteq> Unmount \<Longrightarrow> committed (step s e)"
  by (cases e)
    (simp_all add: committed_onDrop committed_onClickRemove committed_onClickClear
      committed_onChangeVolume committed_onClickMute committed_onClickPlayPause)

lemma committed_run: "committed s \<Longrightarrow> Unmount \<notin> set es \<Longrightarrow> committed (run es s)"
  unfolding run_def
  by (induction es arbitrary: s) (auto simp: committed_step)

subsection \<open>Elements after a change of the volume\<close>

lemma update_elements: "snd ` set (AList.update k e refs) \<subseteq> insert e (snd ` set refs)"
  by (induction refs) auto

lemma attachRefs_elements:
  "snd ` set (attachRefs gv m shown vs refs) \<subseteq> insert \<lparr>volume = gv, muted = m\<rparr> (snd ` set refs)"
proof (induction vs arbitrary: refs)
  case Nil
  then show ?case by (auto simp: attachRefs_Nil)
next
  case (Cons v vs)
  show ?case
    using Cons.IH [of "AList.update (id_v v) \<lparr>volume = gv, muted = m\<rparr> refs"]
      update_elements [of "id_v v" "\<lparr>volume = gv, muted = m\<rparr>" refs]
    by (auto simp: attachRefs_Cons)
qed

lemma rerender_elements:
  "snd ` set (videoRefs (rerender s0 s)) \<subseteq>
     insert \<lparr>volume = globalVolume s, muted = isMuted s\<rparr> (snd ` set (videoRefs s))"
proof -
  have "snd ` set (detachRefs (globalVolume s0) (isMuted s0) (videos s0) (videoRefs s))
          \<subseteq> snd ` set (videoRefs s)"
    by (auto simp: detachRefs_filter)
  with attachRefs_elements [of "globalVolume s" "isMuted s" "videoRefs s0" "videos s"
      "detachRefs (globalVolume s0) (isMuted s0) (videos s0) (videoRefs s)"]
  show ?thesis by (auto simp: rerender_def)
qed

lemma syncVolume_elements:
  "e \<in> snd ` set (videoRefs (syncVolume s)) \<Longrightarrow> e = \<lparr>volume = globalVolume s, muted = isMuted s\<rparr>"
  by (auto simp: syncVolume_def element_overwrite)

lemma syncVolume_frame:
  "videos (syncVolume s) = videos s \<and> globalVolume (syncVolume s) = globalVolume s \<and>
   isMuted (syncVolume s) = isMuted s \<and> next_uuid (syncVolume s) = next_uuid s"
  by (simp add: syncVolume_def)

lemma onChangeVolume_settings:
  "globalVolume (onChangeVolume v s) = v" "isMuted (onChangeVolume v s) = isMuted s"
  "videos (onChangeVolume v s) = videos s" "next_uuid (onChangeVolume v s) = next_uuid s"
  by (simp_all add: onChangeVolume_def syncVolume_frame rerender_frame)

lemma onChangeVolume_elements:
  assumes "v \<noteq> globalVolume s" and "e \<in> snd ` set (videoRefs (onChangeVolume v s))"
  shows "e = \<lparr>volume = v, muted = isMuted s\<rparr>"
  using assms syncVolume_elements [of e "rerender s (s\<lparr>globalVolume := v\<rparr>)"]
  by (simp add: onChangeVolume_def rerender_frame)

lemma onDrop_elements:
  "snd ` set (videoRefs (onDrop files s)) \<subseteq>
     insert \<lparr>volume = globalVolume s, muted = isMuted s\<rparr> (snd ` set (videoRefs s))"
  using rerender_elements [of s "handleDrop files s"]
  by (simp add: onDrop_def revokeAll_frame handleDrop_frame)

subsection \<open>Which elements are bound after an event\<close>

lemma rerender_keys:
  "fst ` set (videoRefs (rerender s0 s)) =
     (fst ` set (videoRefs s) - id_v ` set (videos s0)) \<union> id_v ` set (videos s)"
  by (auto simp: rerender_def attach_keys detachRefs_filter)

lemma syncVolume_keys: "map fst (videoRefs (syncVolume s)) = map fst (videoRefs s)"
  by (simp add: syncVolume_def comp_def split_def)

lemma onChangeVolume_keys:
  assumes "v \<noteq> globalVolume s"
  shows "fst ` set (videoRefs (onChangeVolume v s)) = fst ` set (videoRefs s) \<union> id_v ` set (videos s)"
proof -
  have "fst ` set (videoRefs (onChangeVolume v s))
          = set (map fst (videoRefs (syncVolume (rerender s (s\<lparr>globalVolume := v\<rparr>)))))"
    using assms by (simp add: onChangeVolume_def)
  also have "\<dots> = fst ` set (videoRefs (rerender s (s\<lparr>globalVolume := v\<rparr>)))"
    by (simp only: syncVolume_keys) simp
  also have "\<dots> = fst ` set (videoRefs s) \<union> id_v ` set (videos s)"
    by (auto simp: rerender_keys)
  finally show ?thesis .
qed

lemma onDrop_keys:
  "fst ` set (videoRefs (onDrop files s)) =
     (fst ` set (videoRefs s) - id_v ` set (videos s)) \<union> id_v ` set (videos (onDrop files s))"
  using rerender_keys [of s "handleDrop files s"]
  by (simp add: onDrop_def revokeAll_frame rerender_frame handleDrop_frame)

lemma absorb_rebound: "B \<subseteq> C \<Longrightarrow> ((A \<union> B) - B) \<union> C = A \<union> C"
  by blast

lemma onDrop_after_volume_keys:
  assumes "v \<noteq> globalVolume s"
  shows "fst ` set (videoRefs (onDrop files (onChangeVolume v s))) =
           fst ` set (videoRefs s) \<union> id_v ` set (videos (onDrop files (onChangeVolume v s)))"
proof -
  let ?s1 = "onChangeVolume v s"
  have sub: "id_v ` set (videos s) \<subseteq> id_v ` set (videos (onDrop files ?s1))"
    by (auto simp: onDrop_videos onChangeVolume_settings)
  have "fst ` set (videoRefs (onDrop files ?s1)) =
          ((fst ` set (videoRefs s) \<union> id_v ` set (videos s)) - id_v ` set (videos s))
            \<union> id_v ` set (videos (onDrop files ?s1))"
    by (simp only: onDrop_keys onChangeVolume_keys [OF assms] onChangeVolume_settings)
  then show ?thesis by (simp only: absorb_rebound [OF sub])
qed

lemma onClickRemove_revoked:
  "revoked (onClickRemove k s) =
     revoked s @ (case find (\<lambda>v. id_v v = k) (videos s) of Some v \<Rightarrow> [url v] | None \<Rightarrow> [])
       @ map url (videos s)"
  by (simp add: onClickRemove_def revokeAll_def rerender_def removeVideo_def Let_def
      split: option.splits)

lemma two_adjusted_fields:
  "videos two_adjusted = [\<lparr>id_v = 0, url = 0\<rparr>, \<lparr>id_v = 1, url = 1\<rparr>]"
  "globalVolume two_adjusted = 0.5" "isMuted two_adjusted = False"
  "videoRefs two_adjusted = [(0, \<lparr>volume = 0.9, muted = True\<rparr>), (1, \<lparr>volume = 0.5, muted = False\<rparr>)]"
  by (simp_all add: two_adjusted_def two_videos_eq)

lemma volume_two_adjusted:
  "videoRefs (onChangeVolume 0.3 two_adjusted) =
     [(0, \<lparr>volume = 0.3, muted = False\<rparr>), (1, \<lparr>volume = 0.3, muted = False\<rparr>)]"
  by (simp add: two_adjusted_fields onChangeVolume_def syncVolume_def rerender_def attachRefs_def
      detachRefs_def setVideoRef_def mounted_def)

section \<open>The claims\<close>

text \<open>
  C3. A drop appends one entry per video-typed file of the payload to the end of the
  registry, whatever else the payload holds: the registry becomes the old one followed by
  \<open>new\<close>, \<open>new\<close> has as many entries as the payload has video files, and the object URLs
  of \<open>new\<close> were created, in this order, from the video files in payload order. A payload
  without a video file leaves the registry as it was.
\<close>

theorem drop_appends_video_files:
  "(\<exists>new. videos (onDrop files s) = videos s @ new \<and>
          length new = length (filter isVideoFile files) \<and>
          objects (onDrop files s) = objects s @ zip (map url new) (filter isVideoFile files)) \<and>
   (filter isVideoFile files = [] \<longrightarrow> videos (onDrop files s) = videos s)"
proof -
  let ?new = "fst (newVideos (filter isVideoFile files) s)"
  have v: "videos (onDrop files s) = videos s @ ?new"
    by (rule onDrop_videos)
  have l: "length ?new = length (filter isVideoFile files)"
    by (rule newVideos_length)
  have "objects (onDrop files s) = objects s @ zip (map url ?new) (filter isVideoFile files)"
    by (simp add: onDrop_def revokeAll_frame rerender_frame handleDrop_objects)
  with v l have "\<exists>new. videos (onDrop files s) = videos s @ new \<and>
      length new = length (filter isVideoFile files) \<and>
      objects (onDrop files s) = objects s @ zip (map url new) (filter isVideoFile files)"
    by blast
  moreover have "videos (onDrop files s) = videos s" if "filter isVideoFile files = []"
    using that by (simp add: onDrop_videos)
  ultimately show ?thesis by blast
qed

theorem drop_appends_video_files_witness:
  "filter isVideoFile [memo] = [] \<and> videos (onDrop [memo] two_videos) = videos two_videos \<and>
   (\<exists>new. videos (onDrop [clip, memo, loop] two_videos) = videos two_videos @ new \<and>
          length new = length [clip, loop] \<and>
          objects (onDrop [clip, memo, loop] two_videos) =
            objects two_videos @ zip (map url new) [clip, loop])"
proof -
  have h: "filter isVideoFile [memo] = []"
    by (simp add: isVideoFile_def memo_def)
  have f: "filter isVideoFile [clip, memo, loop] = [clip, loop]"
    by (simp add: isVideoFile_def clip_def memo_def loop_def)
  note none = drop_appends_video_files [of "[memo]" two_videos, unfolded h]
  note some = drop_appends_video_files [of "[clip, memo, loop]" two_videos, unfolded f]
  from none have "videos (onDrop [memo] two_videos) = videos two_videos"
    by simp
  moreover from some have "\<exists>new. videos (onDrop [clip, memo, loop] two_videos) = videos two_videos @ new \<and>
      length new = length [clip, loop] \<and>
      objects (onDrop [clip, memo, loop] two_videos) =
        objects two_videos @ zip (map url new) [clip, loop]"
    by blast
  ultimately show ?thesis
    using h by blast
qed

text \<open>
  C10. A drop leaves \<open>globalVolume\<close>, \<open>isMuted\<close> and \<open>isPlaying\<close> as they were, and
  the entries already in the registry stay at the front of it, with their ids and source
  references, in their order.
\<close>

theorem drop_keeps_control_state:
  "globalVolume (onDrop files s) = globalVolume s \<and>
   isMuted (onDrop files s) = isMuted s \<and>
   isPlaying (onDrop files s) = isPlaying s \<and>
   take (length (videos s)) (videos (onDrop files s)) = videos s"
  by (simp add: onDrop_def revokeAll_frame rerender_frame handleDrop_videos handleDrop_frame)

text \<open>
  C2. A click on "Clear All" revokes the object URL of every entry of the registry, once
  per entry and in registry order, and leaves the registry and the table of bound elements
  empty. The revocations are those of the effect cleanup, which runs because \<open>videos\<close>
  changed; the \<^verbatim>\<open>forEach\<close> of \<^verbatim>\<open>clearAllVideos\<close> itself runs over the empty list of the
  first render.
\<close>

theorem clear_releases_all:
  "revoked (onClickClear s) = revoked s @ map url (videos s) \<and>
   videos (onClickClear s) = [] \<and> videoRefs (onClickClear s) = []"
  by (simp add: onClickClear_def revokeAll_def rerender_def clearAllVideos_def initial_def
      attachRefs_Nil detachRefs_filter)

text \<open>
  C5. \<open>isPlaying\<close> is a boolean, \<open>True\<close> (Playing) on the initial page. A click on the
  play/pause button calls \<^verbatim>\<open>pause()\<close> on every bound element when \<open>isPlaying\<close> holds and
  \<^verbatim>\<open>play()\<close> on every bound element when it does not, in the order of the table, and
  negates \<open>isPlaying\<close>. No other event changes \<open>isPlaying\<close>.
\<close>

theorem transport_toggle:
  "isPlaying initial \<and>
   media_calls (onClickPlayPause r s) =
     media_calls s @ map (if isPlaying s then Pause else Play) (map fst (videoRefs s)) \<and>
   isPlaying (onClickPlayPause r s) = (\<not> isPlaying s) \<and>
   isPlaying (onDrop files s) = isPlaying s \<and>
   isPlaying (onClickRemove k s) = isPlaying s \<and>
   isPlaying (onClickClear s) = isPlaying s \<and>
   isPlaying (onChangeVolume v s) = isPlaying s \<and>
   isPlaying (onClickMute s) = isPlaying s \<and>
   isPlaying (unmount s) = isPlaying s"
  by (simp add: onClickPlayPause_calls onClickPlayPause_flips isPlaying_others initial_def)

text \<open>
  C8. On a paused page, a click on the play/pause button calls \<^verbatim>\<open>play()\<close> on every bound
  element, whichever of the calls the host rejects; every rejection is logged with
  \<^verbatim>\<open>console.error\<close>, and \<open>isPlaying\<close> becomes \<open>True\<close>.
\<close>

theorem play_failures_are_logged:
  assumes "\<not> isPlaying s"
  shows "media_calls (onClickPlayPause rejects s) =
           media_calls s @ map Play (map fst (videoRefs s)) \<and>
         console_errors (onClickPlayPause rejects s) =
           console_errors s @ filter rejects (map fst (videoRefs s)) \<and>
         isPlaying (onClickPlayPause rejects s)"
  using assms
  by (simp add: onClickPlayPause_calls onClickPlayPause_errors onClickPlayPause_flips)

theorem play_failures_are_logged_witness:
  "\<not> isPlaying two_paused \<and>
   media_calls (onClickPlayPause (\<lambda>k. k = 0) two_paused) = [Pause 0, Pause 1, Play 0, Play 1] \<and>
   console_errors (onClickPlayPause (\<lambda>k. k = 0) two_paused) = [0] \<and>
   isPlaying (onClickPlayPause (\<lambda>k. k = 0) two_paused)"
proof -
  have h: "\<not> isPlaying two_paused"
    by (simp add: two_paused_eq)
  show ?thesis
    using h play_failures_are_logged [OF h, of "\<lambda>k. k = 0"] by (simp add: two_paused_eq)
qed

text \<open>
  C1, at a failing input. One video file is dropped on the initial page and the entry is
  removed again: its object URL \<open>0\<close> is revoked twice, by the updater of \<^verbatim>\<open>removeVideo\<close>
  and by the effect cleanup that the change of \<open>videos\<close> triggers. A second drop instead
  of the removal revokes the URL of the first entry while the entry is still in the
  registry.
\<close>

theorem object_url_released_twice:
  "videos (run [Drop [clip]] initial) = [\<lparr>id_v = 0, url = 0\<rparr>] \<and>
   revoked (run [Drop [clip]] initial) = [] \<and>
   videos (run [Drop [clip], Remove 0] initial) = [] \<and>
   revoked (run [Drop [clip], Remove 0] initial) = [0, 0] \<and>
   videos (run [Drop [clip], Drop [loop]] initial) =
     [\<lparr>id_v = 0, url = 0\<rparr>, \<lparr>id_v = 1, url = 1\<rparr>] \<and>
   revoked (run [Drop [clip], Drop [loop]] initial) = [0]"
  by (simp add: eval_defs)

text \<open>
  C9. Removing the same id twice gives the registry and the table of bound elements that
  removing it once gives, in every state.
\<close>

theorem remove_idempotent:
  "videos (onClickRemove k (onClickRemove k s)) = videos (onClickRemove k s) \<and>
   videoRefs (onClickRemove k (onClickRemove k s)) = videoRefs (onClickRemove k s)"
  by (simp add: remove_table_idem onClickRemove_videos)

text \<open>
  C6, at a failing input. On the page with the two entries \<open>0\<close> and \<open>1\<close>, the entry \<open>0\<close>
  is removed. The registry and the table keep the entry \<open>1\<close> alone, but the object URL
  \<open>1\<close> of that remaining entry is revoked as well: the effect cleanup, which the change of
  \<open>videos\<close> triggers, runs over the whole previous list. The removal does not affect the
  removed entry only.
\<close>

theorem remove_releases_remaining_entries:
  "videos two_videos = [\<lparr>id_v = 0, url = 0\<rparr>, \<lparr>id_v = 1, url = 1\<rparr>] \<and>
   revoked two_videos = [] \<and>
   videos (onClickRemove 0 two_videos) = [\<lparr>id_v = 1, url = 1\<rparr>] \<and>
   map fst (videoRefs (onClickRemove 0 two_videos)) = [1] \<and>
   revoked (onClickRemove 0 two_videos) = [0, 0, 1]"
  by (simp add: onClickRemove_videos onClickRemove_revoked onClickRemove_refs two_videos_eq
      attachRefs_Cons attachRefs_Nil)

text \<open>
  C4. The slider shows \<open>globalVolume\<close> (\<^verbatim>\<open>value={globalVolume}\<close>), and its change event
  carries a value \<open>v\<close> other than the one shown. After the event \<open>globalVolume\<close> is \<open>v\<close>;
  the elements bound are the ones bound before and the one of every entry; every bound
  element has volume \<open>v\<close> and the mute flag. An element that \<^verbatim>\<open>setVideoRef\<close> binds
  afterwards is given volume \<open>v\<close> and the mute flag and is then registered under its id,
  the rest of the table as it was. After a later drop, which runs no volume effect, the
  elements bound are the ones bound before and the one of every entry, the new entries
  included, and every one of them has volume \<open>v\<close> and the mute flag.
\<close>

theorem volume_reaches_every_handle:
  assumes "v \<noteq> globalVolume s"
  shows "globalVolume (onChangeVolume v s) = v \<and>
         fst ` set (videoRefs (onChangeVolume v s)) =
           fst ` set (videoRefs s) \<union> id_v ` set (videos s) \<and>
         (\<forall>e \<in> snd ` set (videoRefs (onChangeVolume v s)). volume e = v \<and> muted e = isMuted s) \<and>
         setVideoRef (globalVolume (onChangeVolume v s)) (isMuted (onChangeVolume v s))
             (Some e) k (videoRefs (onChangeVolume v s))
           = AList.update k (e\<lparr>volume := v, muted := isMuted s\<rparr>) (videoRefs (onChangeVolume v s)) \<and>
         fst ` set (videoRefs (onDrop files (onChangeVolume v s))) =
           fst ` set (videoRefs s) \<union> id_v ` set (videos (onDrop files (onChangeVolume v s))) \<and>
         (\<forall>e \<in> snd ` set (videoRefs (onDrop files (onChangeVolume v s))).
            volume e = v \<and> muted e = isMuted s)"
proof (intro conjI ballI)
  show "globalVolume (onChangeVolume v s) = v"
    by (rule onChangeVolume_settings)
  show "fst ` set (videoRefs (onChangeVolume v s)) = fst ` set (videoRefs s) \<union> id_v ` set (videos s)"
    using assms by (rule onChangeVolume_keys)
  show "setVideoRef (globalVolume (onChangeVolume v s)) (isMuted (onChangeVolume v s))
             (Some e) k (videoRefs (onChangeVolume v s))
           = AList.update k (e\<lparr>volume := v, muted := isMuted s\<rparr>) (videoRefs (onChangeVolume v s))"
    by (simp add: setVideoRef_def onChangeVolume_settings)
  show "fst ` set (videoRefs (onDrop files (onChangeVolume v s))) =
           fst ` set (videoRefs s) \<union> id_v ` set (videos (onDrop files (onChangeVolume v s)))"
    using assms by (rule onDrop_after_volume_keys)
next
  fix e assume "e \<in> snd ` set (videoRefs (onChangeVolume v s))"
  with assms have e: "e = \<lparr>volume = v, muted = isMuted s\<rparr>"
    by (rule onChangeVolume_elements)
  show "volume e = v" by (simp add: e)
  show "muted e = isMuted s" by (simp add: e)
next
  fix e assume "e \<in> snd ` set (videoRefs (onDrop files (onChangeVolume v s)))"
  with onDrop_elements [of files "onChangeVolume v s"]
  have "e = \<lparr>volume = v, muted = isMuted s\<rparr> \<or> e \<in> snd ` set (videoRefs (onChangeVolume v s))"
    by (auto simp: onChangeVolume_settings)
  with assms have e: "e = \<lparr>volume = v, muted = isMuted s\<rparr>"
    using onChangeVolume_elements by blast
  show "volume e = v" by (simp add: e)
  show "muted e = isMuted s" by (simp add: e)
qed

theorem volume_reaches_every_handle_witness:
  "0.3 \<noteq> globalVolume two_adjusted \<and>
   videoRefs two_adjusted = [(0, \<lparr>volume = 0.9, muted = True\<rparr>), (1, \<lparr>volume = 0.5, muted = False\<rparr>)] \<and>
   videoRefs (onChangeVolume 0.3 two_adjusted) =
     [(0, \<lparr>volume = 0.3, muted = False\<rparr>), (1, \<lparr>volume = 0.3, muted = False\<rparr>)] \<and>
   fst ` set (videoRefs (onChangeVolume 0.3 two_adjusted)) = {0, 1} \<and>
   volume (snd (videoRefs (onChangeVolume 0.3 two_adjusted) ! 0)) = 0.3 \<and>
   volume (snd (videoRefs (onChangeVolume 0.3 two_adjusted) ! 1)) = 0.3 \<and>
   setVideoRef (globalVolume (onChangeVolume 0.3 two_adjusted))
       (isMuted (onChangeVolume 0.3 two_adjusted)) (Some newElement) 5
       (videoRefs (onChangeVolume 0.3 two_adjusted))
     = [(0, \<lparr>volume = 0.3, muted = False\<rparr>), (1, \<lparr>volume = 0.3, muted = False\<rparr>),
        (5, \<lparr>volume = 0.3, muted = False\<rparr>)] \<and>
   fst ` set (videoRefs (onDrop [clip] (onChangeVolume 0.3 two_adjusted))) = {0, 1, 2}"
proof -
  have h: "0.3 \<noteq> globalVolume two_adjusted"
    by (simp add: two_adjusted_fields)
  note t = volume_reaches_every_handle [OF h, of newElement 5 "[clip]"]
  note t_keys = t [THEN conjunct2, THEN conjunct1]
  note t_all = t [THEN conjunct2, THEN conjunct2, THEN conjunct1]
  note t_bind = t [THEN conjunct2, THEN conjunct2, THEN conjunct2, THEN conjunct1]
  note t_drop = t [THEN conjunct2, THEN conjunct2, THEN conjunct2, THEN conjunct2, THEN conjunct1]
  note r = volume_two_adjusted
  have keys: "fst ` set (videoRefs (onChangeVolume 0.3 two_adjusted)) = {0, 1}"
    using t_keys by (simp add: two_adjusted_fields insert_commute)
  have "snd (videoRefs (onChangeVolume 0.3 two_adjusted) ! 0)
          \<in> snd ` set (videoRefs (onChangeVolume 0.3 two_adjusted))"
    by (simp add: r)
  with t_all have v0: "volume (snd (videoRefs (onChangeVolume 0.3 two_adjusted) ! 0)) = 0.3"
    by blast
  have "snd (videoRefs (onChangeVolume 0.3 two_adjusted) ! 1)
          \<in> snd ` set (videoRefs (onChangeVolume 0.3 two_adjusted))"
    by (simp add: r)
  with t_all have v1: "volume (snd (videoRefs (onChangeVolume 0.3 two_adjusted) ! 1)) = 0.3"
    by blast
  have b: "setVideoRef (globalVolume (onChangeVolume 0.3 two_adjusted))
       (isMuted (onChangeVolume 0.3 two_adjusted)) (Some newElement) 5
       (videoRefs (onChangeVolume 0.3 two_adjusted))
     = [(0, \<lparr>volume = 0.3, muted = False\<rparr>), (1, \<lparr>volume = 0.3, muted = False\<rparr>),
        (5, \<lparr>volume = 0.3, muted = False\<rparr>)]"
    unfolding t_bind by (simp add: r two_adjusted_fields newElement_def)
  have vd: "map id_v (videos (onDrop [clip] (onChangeVolume 0.3 two_adjusted))) = [0, 1, 2]"
    by (simp add: onDrop_videos onChangeVolume_settings two_adjusted_fields isVideoFile_def clip_def
        Let_def two_adjusted_def two_videos_eq onChangeVolume_def syncVolume_def rerender_def)
  have vs: "id_v ` set (videos (onDrop [clip] (onChangeVolume 0.3 two_adjusted))) = {0, 1, 2}"
    using arg_cong [OF vd, of set] by simp
  have d: "fst ` set (videoRefs (onDrop [clip] (onChangeVolume 0.3 two_adjusted))) = {0, 1, 2}"
    unfolding t_drop vs by (auto simp: two_adjusted_fields)
  show ?thesis
    by (intro conjI) (fact h two_adjusted_fields(4) r keys v0 v1 b d)+
qed



end
